theory Spec2Isabelle
  imports Main "HOL-Library.Sublist"
begin

section \<open>The tag store (src/lib/db/tag-store.ts)\<close>

text \<open>
  \<^verbatim>\<open>ITag\<close> and \<^verbatim>\<open>ITagTable\<close> have the same two string fields, and \<^verbatim>\<open>rowToTag\<close> copies
  them one by one, so a row of the table and a tag are the same record.
\<close>

record ITag =
  type :: string
  "value" :: string

definition rowToTag :: "ITag \<Rightarrow> ITag" where
  "rowToTag row = \<lparr>type = type row, value = value row\<rparr>"

text \<open>
  The errors a store method can reject its promise with: the \<^verbatim>\<open>NotFoundError\<close> thrown by
  \<^verbatim>\<open>getTag\<close> (with its message), the unique-violation error the database raises for an
  insert of an existing key, and the error \<^verbatim>\<open>The query is empty\<close> with which the query builder
  rejects a statement that it compiles to nothing, as it does an insert of an empty list.
\<close>

datatype error = NotFoundError string | UniqueViolation | QueryEmpty

subsection \<open>The \<^verbatim>\<open>tags\<close> table and the statements the store sends\<close>

text \<open>
  Modelled from the spec: the schema of the \<^verbatim>\<open>tags\<close> table (its migration is not among the
  sources). The spec gives a tag the composite natural key (type, value) with no surrogate id,
  and names database-level uniqueness constraints as the guard against duplicates;
  \<^verbatim>\<open>bulkImport\<close> names the same two columns as its conflict target. The table is the list of its
  rows in storage order, and a well-formed table holds no key twice.
\<close>

type_synonym tags_table = "ITag list"

definition wf_table :: "tags_table \<Rightarrow> bool" where
  "wf_table tbl = distinct tbl"

text \<open>\<^verbatim>\<open>where({ type, value })\<close> and \<^verbatim>\<open>where(tag)\<close>: equality on both columns.\<close>

definition where_type_value :: "string \<Rightarrow> string \<Rightarrow> ITag \<Rightarrow> bool" where
  "where_type_value type' value' row = (type row = type' \<and> value row = value')"

text \<open>\<^verbatim>\<open>select(COLUMNS).from(TABLE)\<close>, with an optional condition.\<close>

definition db_select :: "(ITag \<Rightarrow> bool) \<Rightarrow> tags_table \<Rightarrow> ITag list" where
  "db_select cond tbl = filter cond tbl"

text \<open>\<^verbatim>\<open>first(COLUMNS).from(TABLE).where(...)\<close>: the first matching row, or undefined.\<close>

definition db_first :: "(ITag \<Rightarrow> bool) \<Rightarrow> tags_table \<Rightarrow> ITag option" where
  "db_first cond tbl = (case filter cond tbl of [] \<Rightarrow> None | row # _ \<Rightarrow> Some row)"

text \<open>\<^verbatim>\<open>SELECT EXISTS (SELECT 1 FROM tags WHERE type = ? AND value = ?) AS present\<close>.\<close>

definition db_exists :: "string \<Rightarrow> string \<Rightarrow> tags_table \<Rightarrow> bool" where
  "db_exists type' value' tbl = (\<exists>row \<in> set tbl. where_type_value type' value' row)"

text \<open>\<^verbatim>\<open>insert(tag)\<close>: rejected when the key is already stored, else the row is appended.\<close>

definition db_insert :: "ITag \<Rightarrow> tags_table \<Rightarrow> error + tags_table" where
  "db_insert row tbl =
     (if \<exists>r \<in> set tbl. where_type_value (type row) (value row) r
      then Inl UniqueViolation
      else Inr (tbl @ [row]))"

text \<open>\<^verbatim>\<open>where(...).del()\<close>: every matching row is removed; no match is not an error.\<close>

definition db_del :: "(ITag \<Rightarrow> bool) \<Rightarrow> tags_table \<Rightarrow> tags_table" where
  "db_del cond tbl = filter (\<lambda>row. \<not> cond row) tbl"

text \<open>
  \<^verbatim>\<open>insert(tags).returning(COLUMNS).onConflict(['type', 'value']).ignore()\<close>. For an empty
  list the query builder has no statement to send and rejects the query. Otherwise it sends
  \<^verbatim>\<open>INSERT ... ON CONFLICT (type, value) DO NOTHING RETURNING type, value\<close>: the rows are
  taken in order; a row whose key is stored already (before the statement, or by an earlier row
  of the same statement) is skipped, any other is appended and returned. \<open>ignore_step\<close> is
  the step for one row, on the pair of the rows returned so far and the table; the result of
  the statement is the pair of the returned rows and the new table.
\<close>

definition ignore_step :: "ITag list \<times> tags_table \<Rightarrow> ITag \<Rightarrow> ITag list \<times> tags_table" where
  "ignore_step acc row =
     (case acc of
        (returned, tbl) \<Rightarrow>
          if \<exists>r \<in> set tbl. where_type_value (type row) (value row) r
          then (returned, tbl)
          else (returned @ [row], tbl @ [row]))"

definition db_insert_ignore :: "ITag list \<Rightarrow> tags_table \<Rightarrow> error + ITag list \<times> tags_table" where
  "db_insert_ignore rows tbl =
     (if rows = [] then Inl QueryEmpty else Inr (foldl ignore_step ([], tbl) rows))"

subsection \<open>The methods of \<^verbatim>\<open>TagStore\<close>\<close>

text \<open>
  Each method takes the table and gives back its result (\<open>Inl\<close> when the promise is rejected)
  together with the table it leaves. The timer calls only feed the metrics and are left out.
\<close>

definition getTagsByType :: "string \<Rightarrow> tags_table \<Rightarrow> (error + ITag list) \<times> tags_table" where
  "getTagsByType type' tbl = (Inr (map rowToTag (db_select (\<lambda>row. type row = type') tbl)), tbl)"

definition getAll :: "tags_table \<Rightarrow> (error + ITag list) \<times> tags_table" where
  "getAll tbl = (Inr (map rowToTag (db_select (\<lambda>row. True) tbl)), tbl)"

definition notfound_message :: "string \<Rightarrow> string \<Rightarrow> string" where
  "notfound_message type' value' =
     ''No tag with type: ['' @ type' @ ''] and value ['' @ value' @ '']''"

definition getTag :: "string \<Rightarrow> string \<Rightarrow> tags_table \<Rightarrow> (error + ITag) \<times> tags_table" where
  "getTag type' value' tbl =
     (case db_first (where_type_value type' value') tbl of
        None \<Rightarrow> (Inl (NotFoundError (notfound_message type' value')), tbl)
      | Some tag \<Rightarrow> (Inr tag, tbl))"

definition exists :: "ITag \<Rightarrow> tags_table \<Rightarrow> (error + bool) \<times> tags_table" where
  "exists tag tbl = (Inr (db_exists (type tag) (value tag) tbl), tbl)"

definition createTag :: "ITag \<Rightarrow> tags_table \<Rightarrow> (error + unit) \<times> tags_table" where
  "createTag tag tbl =
     (case db_insert tag tbl of
        Inl e \<Rightarrow> (Inl e, tbl)
      | Inr tbl' \<Rightarrow> (Inr (), tbl'))"

definition deleteTag :: "ITag \<Rightarrow> tags_table \<Rightarrow> (error + unit) \<times> tags_table" where
  "deleteTag tag tbl = (Inr (), db_del (where_type_value (type tag) (value tag)) tbl)"

definition dropTags :: "tags_table \<Rightarrow> (error + unit) \<times> tags_table" where
  "dropTags tbl = (Inr (), db_del (\<lambda>row. True) tbl)"

definition bulkImport :: "ITag list \<Rightarrow> tags_table \<Rightarrow> (error + ITag list) \<times> tags_table" where
  "bulkImport tags tbl =
     (case db_insert_ignore tags tbl of
        Inl e \<Rightarrow> (Inl e, tbl)
      | Inr (returned, tbl') \<Rightarrow> (Inr returned, tbl'))"

section \<open>Feature toggles, events and the admin routes\<close>

text \<open>
  The feature toggle store, the event store, the services and the admin router are not among
  the sources; only the router's test (src/lib/routes/admin-api/feature.test.js) is. They are
  modelled here from the specification, and the names and literals of the test are used
  where the specification gives none.
\<close>

subsection \<open>Data model\<close>

datatype Strategy = Strategy (strategy_name: string) (parameters: "(string \<times> string) list")

datatype Variant = Variant (variant_name: string) (weight: nat)

text \<open>
  Modelled from the spec: the toggle record of the missing feature toggle store, with the
  fields of the data model; the tag set is the list of attached tags in the order of attaching,
  without repetition.
\<close>

record FeatureToggle =
  name :: string
  enabled :: bool
  strategies :: "Strategy list"
  variants :: "Variant list"
  stale :: bool
  project :: string
  tags :: "ITag list"

text \<open>
  Modelled from the spec: the body of a create request (the toggle definition), which is
  missing with the router. The test sends bodies with no \<^verbatim>\<open>strategies\<close> field and with
  \<^verbatim>\<open>variants: null\<close>, so both are optional.
\<close>

record FeatureDef =
  def_name :: string
  def_enabled :: bool
  def_strategies :: "Strategy list option"
  def_variants :: "Variant list option"
  def_stale :: bool
  def_project :: string

text \<open>
  Modelled from the spec: the event record of the missing event store. The type enumeration of
  the spec is open-ended; the two tag events stand for the tag events it mentions. The
  timestamp is the position in the log. The event's \<^verbatim>\<open>type\<close>, \<^verbatim>\<open>data\<close> and \<^verbatim>\<open>tags\<close> fields are
  \<open>event_type\<close>, \<open>event_data\<close> and \<open>event_tags\<close>.
\<close>

datatype EventType =
  FeatureCreated | FeatureUpdated | FeatureArchived | FeatureTagged | FeatureUntagged

record Event =
  event_type :: EventType
  event_data :: FeatureToggle
  event_tags :: "ITag list"
  timestamp :: nat

text \<open>
  Modelled from the spec: the state behind the admin API, the active toggles and the archived
  toggles in insertion order and the append-only event log, oldest event first.
\<close>

record Stores =
  features :: "FeatureToggle list"
  archived :: "FeatureToggle list"
  events :: "Event list"

definition emptyStores :: Stores where
  "emptyStores = \<lparr>features = [], archived = [], events = []\<rparr>"

subsection \<open>Event store\<close>

text \<open>
  Modelled from the spec: \<^verbatim>\<open>append(event)\<close> of the missing event store, called by the other
  stores. The event holds the toggle and a copy of the tags the toggle has at that moment.
\<close>

definition append_event :: "EventType \<Rightarrow> FeatureToggle \<Rightarrow> Stores \<Rightarrow> Stores" where
  "append_event ty f s =
     s\<lparr>events := events s @
          [\<lparr>event_type = ty, event_data = f, event_tags = tags f,
            timestamp = length (events s)\<rparr>]\<rparr>"

text \<open>Modelled from the spec: \<^verbatim>\<open>getEvents()\<close> of the missing event store, most recent first.\<close>

definition getEvents :: "Stores \<Rightarrow> Event list" where
  "getEvents s = rev (events s)"

subsection \<open>Feature toggle store\<close>

text \<open>
  Modelled from the spec: \<^verbatim>\<open>hasFeature\<close>-style lookup of the missing feature toggle store, the
  first active toggle of that name.
\<close>

definition getFeature :: "string \<Rightarrow> Stores \<Rightarrow> FeatureToggle option" where
  "getFeature n s = find (\<lambda>f. name f = n) (features s)"

text \<open>
  Modelled from the spec: \<^verbatim>\<open>createFeature\<close> of the missing feature toggle store as the test
  calls it, with a toggle that passed validation: the toggle becomes active, last in insertion
  order, and a create event is emitted.
\<close>

definition createFeature :: "FeatureToggle \<Rightarrow> Stores \<Rightarrow> Stores" where
  "createFeature f s = append_event FeatureCreated f (s\<lparr>features := features s @ [f]\<rparr>)"

text \<open>
  Modelled from the spec: \<^verbatim>\<open>addArchivedFeature\<close> of the missing feature toggle store, which
  puts a toggle into the archived set.
\<close>

definition addArchivedFeature :: "FeatureToggle \<Rightarrow> Stores \<Rightarrow> Stores" where
  "addArchivedFeature f s = s\<lparr>archived := archived s @ [f]\<rparr>"

text \<open>
  Modelled from the spec: \<^verbatim>\<open>archive(name)\<close> of the missing feature toggle store. The toggle
  moves from the active to the archived set, with its tags, and one archive event carrying
  these tags is emitted. \<open>None\<close> when no active toggle has the name.
\<close>

definition archive :: "string \<Rightarrow> Stores \<Rightarrow> Stores option" where
  "archive n s =
     (case getFeature n s of
        None \<Rightarrow> None
      | Some f \<Rightarrow>
          Some (append_event FeatureArchived f
                  (s\<lparr>features := filter (\<lambda>g. name g \<noteq> n) (features s),
                     archived := archived s @ [f]\<rparr>)))"

text \<open>
  Modelled from the spec: \<^verbatim>\<open>tagFeature\<close>, \<^verbatim>\<open>untagFeature\<close> and \<^verbatim>\<open>getTagsForFeature\<close> of the
  missing feature toggle store. Tags are attached to and detached from an active toggle; the
  tag set holds no tag twice; each change emits a tag event.
\<close>

definition attach :: "string \<Rightarrow> ITag \<Rightarrow> FeatureToggle \<Rightarrow> FeatureToggle" where
  "attach n tag f =
     (if name f = n \<and> tag \<notin> set (tags f) then f\<lparr>tags := tags f @ [tag]\<rparr> else f)"

definition detach :: "string \<Rightarrow> ITag \<Rightarrow> FeatureToggle \<Rightarrow> FeatureToggle" where
  "detach n tag f =
     (if name f = n then f\<lparr>tags := filter (\<lambda>t. t \<noteq> tag) (tags f)\<rparr> else f)"

definition tagFeature :: "string \<Rightarrow> ITag \<Rightarrow> Stores \<Rightarrow> Stores" where
  "tagFeature n tag s =
     (case getFeature n s of
        None \<Rightarrow> s
      | Some f \<Rightarrow>
          append_event FeatureTagged (attach n tag f)
            (s\<lparr>features := map (attach n tag) (features s)\<rparr>))"

definition untagFeature :: "string \<Rightarrow> ITag \<Rightarrow> Stores \<Rightarrow> Stores" where
  "untagFeature n tag s =
     (case getFeature n s of
        None \<Rightarrow> s
      | Some f \<Rightarrow>
          append_event FeatureUntagged (detach n tag f)
            (s\<lparr>features := map (detach n tag) (features s)\<rparr>))"

definition getTagsForFeature :: "string \<Rightarrow> Stores \<Rightarrow> ITag list" where
  "getTagsForFeature n s = (case getFeature n s of None \<Rightarrow> [] | Some f \<Rightarrow> tags f)"

text \<open>A later change of tags, and a sequence of such changes run one after the other.\<close>

datatype TagChange = Tag string ITag | Untag string ITag

fun tagChange :: "TagChange \<Rightarrow> Stores \<Rightarrow> Stores" where
  "tagChange (Tag n tag) s = tagFeature n tag s"
| "tagChange (Untag n tag) s = untagFeature n tag s"

fun tagChanges :: "TagChange list \<Rightarrow> Stores \<Rightarrow> Stores" where
  "tagChanges [] s = s"
| "tagChanges (c # cs) s = tagChanges cs (tagChange c s)"

text \<open>
  Modelled from the spec: the list query of the missing feature toggle store, with the optional
  \<^verbatim>\<open>namePrefix\<close>, \<^verbatim>\<open>tag\<close> and \<^verbatim>\<open>project\<close> filters: exact prefix on the name, exact match on a
  tag and on the project, result in insertion order.
\<close>

definition matchesQuery ::
  "string option \<Rightarrow> ITag option \<Rightarrow> string option \<Rightarrow> FeatureToggle \<Rightarrow> bool" where
  "matchesQuery namePrefix tag' project' f =
     ((case namePrefix of None \<Rightarrow> True | Some p \<Rightarrow> prefix p (name f))
      \<and> (case tag' of None \<Rightarrow> True | Some t \<Rightarrow> t \<in> set (tags f))
      \<and> (case project' of None \<Rightarrow> True | Some p \<Rightarrow> project f = p))"

definition getFeatures ::
  "string option \<Rightarrow> ITag option \<Rightarrow> string option \<Rightarrow> Stores \<Rightarrow> FeatureToggle list" where
  "getFeatures namePrefix tag' project' s =
     filter (matchesQuery namePrefix tag' project') (features s)"

subsection \<open>Admin router\<close>

text \<open>
  Modelled from the spec: the URL-friendly name pattern of the missing schema. The spec calls
  it URL-safe characters only and gives no pattern; the characters taken here are those that
  URL-encoding leaves as they are (letters, digits and \<^verbatim>\<open>- _ . ! ~ * ' ( )\<close>), which accepts
  every valid name of the test and rejects every invalid one. A string is a list of 8-bit
  characters, and a character above 127 stands for a non-ASCII one.
\<close>

definition isUrlFriendlyChar :: "char \<Rightarrow> bool" where
  "isUrlFriendlyChar c =
     (let n = (of_char c :: nat) in
        (65 \<le> n \<and> n \<le> 90) \<or> (97 \<le> n \<and> n \<le> 122) \<or> (48 \<le> n \<and> n \<le> 57)
        \<or> n \<in> {45, 95, 46, 33, 126, 42, 39, 40, 41})"

definition isUrlFriendly :: "string \<Rightarrow> bool" where
  "isUrlFriendly n = list_all isUrlFriendlyChar n"

text \<open>
  Modelled from the spec: the error taxonomy of the missing router, a validation error (400), a
  conflict error (409), not found (404), each with the message of its first detail where the
  spec or the test gives the text.
\<close>

datatype Failure =
  NameNotUrlFriendly | NameExists | ArchivedNameExists | StrategiesMissing
  | VariantNamesCollide | NotFound

datatype Response = Success nat | Failed Failure

fun failure_status :: "Failure \<Rightarrow> nat" where
  "failure_status NameNotUrlFriendly = 400"
| "failure_status NameExists = 409"
| "failure_status ArchivedNameExists = 409"
| "failure_status StrategiesMissing = 400"
| "failure_status VariantNamesCollide = 400"
| "failure_status NotFound = 404"

fun failure_message :: "Failure \<Rightarrow> string option" where
  "failure_message NameNotUrlFriendly =
     Some [CHR 0x22, CHR ''n'', CHR ''a'', CHR ''m'', CHR ''e'', CHR 0x22,
           CHR '' '', CHR ''m'', CHR ''u'', CHR ''s'', CHR ''t'', CHR '' '', CHR ''b'', CHR ''e'',
           CHR '' '', CHR ''U'', CHR ''R'', CHR ''L'', CHR '' '', CHR ''f'', CHR ''r'', CHR ''i'',
           CHR ''e'', CHR ''n'', CHR ''d'', CHR ''l'', CHR ''y'']"
| "failure_message NameExists = Some ''A toggle with that name already exists''"
| "failure_message ArchivedNameExists = Some ''An archived toggle with that name already exists''"
| "failure_message StrategiesMissing = None"
| "failure_message VariantNamesCollide = None"
| "failure_message NotFound = None"

fun status :: "Response \<Rightarrow> nat" where
  "status (Success code) = code"
| "status (Failed e) = failure_status e"

fun message :: "Response \<Rightarrow> string option" where
  "message (Success code) = None"
| "message (Failed e) = failure_message e"

text \<open>
  Modelled from the spec: the name validation of the missing router, the name pattern first and
  then the conflict with an active or an archived toggle.
\<close>

definition validateName :: "string \<Rightarrow> Stores \<Rightarrow> Failure option" where
  "validateName n s =
     (if \<not> isUrlFriendly n then Some NameNotUrlFriendly
      else if n \<in> set (map name (features s)) then Some NameExists
      else if n \<in> set (map name (archived s)) then Some ArchivedNameExists
      else None)"

text \<open>
  Modelled from the spec: \<^verbatim>\<open>POST /api/admin/features/validate\<close> of the missing router; the test
  sends it a body with a name only and expects 200 for a new name.
\<close>

definition validateToggle :: "string \<Rightarrow> Stores \<Rightarrow> Response \<times> Stores" where
  "validateToggle n s =
     (case validateName n s of Some e \<Rightarrow> (Failed e, s) | None \<Rightarrow> (Success 200, s))"

text \<open>The toggle a valid definition creates: absent variants are none, and no tag is attached.\<close>

definition toggleOfDef :: "FeatureDef \<Rightarrow> FeatureToggle" where
  "toggleOfDef d =
     \<lparr>name = def_name d, enabled = def_enabled d,
      strategies = (case def_strategies d of None \<Rightarrow> [] | Some ss \<Rightarrow> ss),
      variants = (case def_variants d of None \<Rightarrow> [] | Some vs \<Rightarrow> vs),
      stale = def_stale d, project = def_project d, tags = []\<rparr>"

text \<open>
  Modelled from the spec: \<^verbatim>\<open>POST /api/admin/features\<close> of the missing router, on a JSON body.
  The checks run in the order in which the spec lists the failures of \<^verbatim>\<open>createFeature\<close>: the
  name (pattern and conflict), then the strategies, then the variant names. A request that
  fails leaves the state as it was; one that passes creates the toggle and answers 201.
\<close>

definition createToggle :: "FeatureDef \<Rightarrow> Stores \<Rightarrow> Response \<times> Stores" where
  "createToggle d s =
     (case validateName (def_name d) s of
        Some e \<Rightarrow> (Failed e, s)
      | None \<Rightarrow>
          if def_strategies d = None \<or> def_strategies d = Some [] then (Failed StrategiesMissing, s)
          else if \<not> distinct (map variant_name (variants (toggleOfDef d)))
            then (Failed VariantNamesCollide, s)
          else (Success 201, createFeature (toggleOfDef d) s))"

text \<open>
  Modelled from the spec: \<^verbatim>\<open>DELETE /api/admin/features/:name\<close> of the missing router, which
  archives the toggle and answers 200; for a name that no active toggle has the spec names no
  answer, and the not-found error of its taxonomy is taken.
\<close>

definition deleteToggle :: "string \<Rightarrow> Stores \<Rightarrow> Response \<times> Stores" where
  "deleteToggle n s =
     (case archive n s of None \<Rightarrow> (Failed NotFound, s) | Some s' \<Rightarrow> (Success 200, s'))"

text \<open>
  Modelled from the spec: the invariants of the data model on the stored toggles. A name is
  URL-friendly and unique across active and archived toggles, a toggle has at least one
  strategy, and its variant names are unique.
\<close>

definition wf_toggle :: "FeatureToggle \<Rightarrow> bool" where
  "wf_toggle f =
     (isUrlFriendly (name f) \<and> strategies f \<noteq> [] \<and> distinct (map variant_name (variants f)))"

definition wf_stores :: "Stores \<Rightarrow> bool" where
  "wf_stores s =
     (distinct (map name (features s @ archived s))
      \<and> list_all wf_toggle (features s @ archived s))"

subsection \<open>The requests of the router's test\<close>

text \<open>
  The toggle that the test (feature.test.js) hands to \<^verbatim>\<open>createFeature\<close>, a name with
  \<^verbatim>\<open>enabled: false\<close> and \<^verbatim>\<open>strategies: [{ name: 'default' }]\<close>, and the body it posts.
\<close>

definition testToggle :: "string \<Rightarrow> FeatureToggle" where
  "testToggle n =
     \<lparr>name = n, enabled = False, strategies = [Strategy ''default'' []], variants = [],
      stale = False, project = ''default'', tags = []\<rparr>"

definition testDef :: "string \<Rightarrow> Strategy list option \<Rightarrow> FeatureDef" where
  "testDef n ss =
     \<lparr>def_name = n, def_enabled = False, def_strategies = ss, def_variants = None,
      def_stale = False, def_project = ''default''\<rparr>"

section \<open>Properties of the tag store\<close>

lemma rowToTag_id: "rowToTag row = row"
  by (simp add: rowToTag_def)

lemma where_type_value_eq: "where_type_value (type tag) (value tag) row \<longleftrightarrow> row = tag"
  by (auto simp: where_type_value_def)

lemma db_first_None: "db_first cond tbl = None \<longleftrightarrow> (\<forall>row \<in> set tbl. \<not> cond row)"
proof -
  have "db_first cond tbl = None \<longleftrightarrow> filter cond tbl = []"
    by (simp add: db_first_def split: list.splits)
  then show ?thesis
    by (simp add: filter_empty_conv)
qed

lemma db_first_Some: "db_first cond tbl = Some row \<Longrightarrow> row \<in> set tbl \<and> cond row"
proof -
  assume "db_first cond tbl = Some row"
  then obtain rest where "filter cond tbl = row # rest"
    by (auto simp: db_first_def split: list.splits)
  then have "row \<in> set (filter cond tbl)"
    by simp
  then show ?thesis
    by simp
qed

lemma ignore_step_set:
  "set (snd (foldl ignore_step (returned, tbl) rows)) = set tbl \<union> set rows"
  by (induction rows arbitrary: returned tbl) (auto simp: ignore_step_def where_type_value_eq)

lemma ignore_step_returned:
  "set (fst (foldl ignore_step (returned, tbl) rows)) = set returned \<union> (set rows - set tbl)"
  by (induction rows arbitrary: returned tbl) (auto simp: ignore_step_def where_type_value_eq)

lemma ignore_step_present:
  "set rows \<subseteq> set tbl \<Longrightarrow> foldl ignore_step (returned, tbl) rows = (returned, tbl)"
  by (induction rows) (auto simp: ignore_step_def where_type_value_eq)

lemma ignore_step_wf:
  "wf_table tbl \<Longrightarrow> wf_table (snd (foldl ignore_step (returned, tbl) rows))"
  by (induction rows arbitrary: returned tbl)
     (auto simp: wf_table_def ignore_step_def where_type_value_eq)

lemma bulkImport_wf: "wf_table tbl \<Longrightarrow> wf_table (snd (bulkImport rows tbl))"
proof (cases "rows = []")
  case True
  assume "wf_table tbl"
  with True show ?thesis
    by (simp add: bulkImport_def db_insert_ignore_def)
next
  case False
  assume "wf_table tbl"
  then have "wf_table (snd (foldl ignore_step ([], tbl) rows))"
    by (rule ignore_step_wf)
  with False show ?thesis
    by (simp add: bulkImport_def db_insert_ignore_def case_prod_beta)
qed

text \<open>
  Claim C2 as stated fails at the empty list: \<^verbatim>\<open>bulkImport([])\<close> hands the empty list to the
  query builder, which rejects it, on the first run and on the second.
\<close>

theorem bulkImport_empty_counterexample:
  "fst (bulkImport [] [\<lparr>type = ''simple'', value = ''mytag''\<rparr>]) = Inl QueryEmpty
   \<and> fst (bulkImport [] (snd (bulkImport [] [\<lparr>type = ''simple'', value = ''mytag''\<rparr>])))
       = Inl QueryEmpty"
  by (simp add: bulkImport_def db_insert_ignore_def)

text \<open>
  Claim C2, amended. For every list, running \<^verbatim>\<open>bulkImport\<close> a second time with the same list
  leaves the table as the first run left it. For every list that is not empty, neither run is
  rejected: the first returns exactly the rows that were not stored before, so a row whose key
  exists is skipped without being reported, and the second returns no row.
\<close>

theorem bulkImport_idempotent:
  "snd (bulkImport rows (snd (bulkImport rows tbl))) = snd (bulkImport rows tbl)
   \<and> (rows \<noteq> [] \<longrightarrow>
        fst (bulkImport rows (snd (bulkImport rows tbl))) = Inr []
        \<and> (\<exists>returned. fst (bulkImport rows tbl) = Inr returned
                        \<and> set returned = set rows - set tbl))"
proof (cases "rows = []")
  case True
  then show ?thesis
    by (simp add: bulkImport_def db_insert_ignore_def)
next
  case False
  obtain returned tbl' where run: "foldl ignore_step ([], tbl) rows = (returned, tbl')"
    by (cases "foldl ignore_step ([], tbl) rows")
  have first: "bulkImport rows tbl = (Inr returned, tbl')"
    using False run by (simp add: bulkImport_def db_insert_ignore_def)
  have "set rows \<subseteq> set tbl'"
    using ignore_step_set [of "[]" tbl rows] run by simp
  then have "foldl ignore_step ([], tbl') rows = ([], tbl')"
    by (rule ignore_step_present)
  then have second: "bulkImport rows tbl' = (Inr [], tbl')"
    using False by (simp add: bulkImport_def db_insert_ignore_def)
  have "set returned = set rows - set tbl"
    using ignore_step_returned [of "[]" tbl rows] run by simp
  with first second show ?thesis
    by simp
qed

text \<open>
  Claim C6. \<^verbatim>\<open>getTag(type, value)\<close> returns a stored tag with that type and value when such a
  row exists, and it is rejected exactly when no such row exists, then with \<^verbatim>\<open>NotFoundError\<close>.
\<close>

theorem getTag_raises_iff_absent:
  "((\<exists>row \<in> set tbl. type row = t \<and> value row = v) \<longrightarrow>
      (\<exists>tag. fst (getTag t v tbl) = Inr tag \<and> type tag = t \<and> value tag = v \<and> tag \<in> set tbl))
   \<and> ((\<exists>e. fst (getTag t v tbl) = Inl e) \<longleftrightarrow> \<not> (\<exists>row \<in> set tbl. type row = t \<and> value row = v))
   \<and> (\<forall>e. fst (getTag t v tbl) = Inl e \<longrightarrow> e = NotFoundError (notfound_message t v))"
proof (cases "db_first (where_type_value t v) tbl")
  case None
  then have "\<not> (\<exists>row \<in> set tbl. type row = t \<and> value row = v)"
    by (simp add: db_first_None where_type_value_def)
  with None show ?thesis
    by (simp add: getTag_def)
next
  case (Some tag)
  then have "tag \<in> set tbl \<and> where_type_value t v tag"
    by (rule db_first_Some)
  with Some show ?thesis
    by (auto simp: getTag_def where_type_value_def)
qed

text \<open>
  Claim C10. \<^verbatim>\<open>exists(t)\<close> returns true exactly when \<^verbatim>\<open>getTag(t.type, t.value)\<close> returns a
  tag, false exactly when it raises \<^verbatim>\<open>NotFoundError\<close>, and both leave the table as it was.
\<close>

theorem exists_agrees_with_getTag:
  "(fst (exists tag tbl) = Inr True \<longleftrightarrow> (\<exists>found. fst (getTag (type tag) (value tag) tbl) = Inr found))
   \<and> (fst (exists tag tbl) = Inr False \<longleftrightarrow>
        (\<exists>msg. fst (getTag (type tag) (value tag) tbl) = Inl (NotFoundError msg)))
   \<and> snd (exists tag tbl) = tbl
   \<and> snd (getTag (type tag) (value tag) tbl) = tbl"
proof (cases "db_first (where_type_value (type tag) (value tag)) tbl")
  case None
  then have "\<not> db_exists (type tag) (value tag) tbl"
    by (simp add: db_first_None db_exists_def)
  with None show ?thesis
    by (simp add: getTag_def exists_def)
next
  case (Some found)
  then have "found \<in> set tbl \<and> where_type_value (type tag) (value tag) found"
    by (rule db_first_Some)
  then have "db_exists (type tag) (value tag) tbl"
    by (auto simp: db_exists_def)
  with Some show ?thesis
    by (simp add: getTag_def exists_def)
qed

text \<open>
  Claim C7. \<^verbatim>\<open>createTag(tag)\<close> is rejected when a row with the same (type, value) key is
  stored, and the table is then unchanged; otherwise it succeeds and the tag is added.
\<close>

theorem createTag_fails_on_duplicate:
  "((\<exists>row \<in> set tbl. type row = type tag \<and> value row = value tag) \<longrightarrow>
      createTag tag tbl = (Inl UniqueViolation, tbl))
   \<and> (\<not> (\<exists>row \<in> set tbl. type row = type tag \<and> value row = value tag) \<longrightarrow>
      fst (createTag tag tbl) = Inr () \<and> snd (createTag tag tbl) = tbl @ [tag]
      \<and> set (snd (createTag tag tbl)) = insert tag (set tbl))"
  by (simp add: createTag_def db_insert_def where_type_value_def rowToTag_id)

text \<open>
  Claim C8. \<^verbatim>\<open>deleteTag(tag)\<close> always succeeds; the rows it leaves are the stored rows whose
  (type, value) differ from the argument's, in their old order, and when no row matches the
  table is unchanged.
\<close>

theorem deleteTag_removes_exactly:
  "fst (deleteTag tag tbl) = Inr ()
   \<and> (\<forall>row. row \<in> set (snd (deleteTag tag tbl)) \<longleftrightarrow>
         row \<in> set tbl \<and> \<not> (type row = type tag \<and> value row = value tag))
   \<and> filter (\<lambda>row. \<not> (type row = type tag \<and> value row = value tag)) (snd (deleteTag tag tbl))
       = filter (\<lambda>row. \<not> (type row = type tag \<and> value row = value tag)) tbl
   \<and> (\<not> (\<exists>row \<in> set tbl. type row = type tag \<and> value row = value tag) \<longrightarrow>
         snd (deleteTag tag tbl) = tbl)"
  by (auto simp: deleteTag_def db_del_def where_type_value_def filter_id_conv)

lemma createTag_wf: "wf_table tbl \<Longrightarrow> wf_table (snd (createTag tag tbl))"
  by (auto simp: createTag_def db_insert_def wf_table_def rowToTag_id where_type_value_eq)

lemma deleteTag_wf: "wf_table tbl \<Longrightarrow> wf_table (snd (deleteTag tag tbl))"
  by (simp add: deleteTag_def db_del_def wf_table_def)


theorem bulkImport_idempotent_witness:
  "[\<lparr>type = ''simple'', value = ''tag''\<rparr>, \<lparr>type = ''simple'', value = ''mytag''\<rparr>,
    \<lparr>type = ''simple'', value = ''tag''\<rparr>] \<noteq> []
   \<and> snd (bulkImport [\<lparr>type = ''simple'', value = ''tag''\<rparr>, \<lparr>type = ''simple'', value = ''mytag''\<rparr>,
                    \<lparr>type = ''simple'', value = ''tag''\<rparr>]
         (snd (bulkImport [\<lparr>type = ''simple'', value = ''tag''\<rparr>, \<lparr>type = ''simple'', value = ''mytag''\<rparr>,
                           \<lparr>type = ''simple'', value = ''tag''\<rparr>]
                [\<lparr>type = ''simple'', value = ''mytag''\<rparr>])))
     = [\<lparr>type = ''simple'', value = ''mytag''\<rparr>, \<lparr>type = ''simple'', value = ''tag''\<rparr>]
   \<and> fst (bulkImport [\<lparr>type = ''simple'', value = ''tag''\<rparr>, \<lparr>type = ''simple'', value = ''mytag''\<rparr>,
                      \<lparr>type = ''simple'', value = ''tag''\<rparr>]
         (snd (bulkImport [\<lparr>type = ''simple'', value = ''tag''\<rparr>, \<lparr>type = ''simple'', value = ''mytag''\<rparr>,
                           \<lparr>type = ''simple'', value = ''tag''\<rparr>]
                [\<lparr>type = ''simple'', value = ''mytag''\<rparr>])))
     = Inr []
   \<and> fst (bulkImport [\<lparr>type = ''simple'', value = ''tag''\<rparr>, \<lparr>type = ''simple'', value = ''mytag''\<rparr>,
                      \<lparr>type = ''simple'', value = ''tag''\<rparr>]
           [\<lparr>type = ''simple'', value = ''mytag''\<rparr>])
     = Inr [\<lparr>type = ''simple'', value = ''tag''\<rparr>]"
  using bulkImport_idempotent
          [of "[\<lparr>type = ''simple'', value = ''tag''\<rparr>, \<lparr>type = ''simple'', value = ''mytag''\<rparr>,
                \<lparr>type = ''simple'', value = ''tag''\<rparr>]"
              "[\<lparr>type = ''simple'', value = ''mytag''\<rparr>]"]
  by (simp add: bulkImport_def db_insert_ignore_def ignore_step_def where_type_value_def)

theorem getTag_raises_iff_absent_witness:
  "(\<exists>row \<in> set [\<lparr>type = ''simple'', value = ''mytag''\<rparr>, \<lparr>type = ''simple'', value = ''tag''\<rparr>].
       type row = ''simple'' \<and> value row = ''tag'')
   \<and> fst (getTag ''simple'' ''tag''
             [\<lparr>type = ''simple'', value = ''mytag''\<rparr>, \<lparr>type = ''simple'', value = ''tag''\<rparr>])
       = Inr \<lparr>type = ''simple'', value = ''tag''\<rparr>
   \<and> \<not> (\<exists>row \<in> set [\<lparr>type = ''simple'', value = ''mytag''\<rparr>].
          type row = ''simple'' \<and> value row = ''tag'')
   \<and> fst (getTag ''simple'' ''tag'' [\<lparr>type = ''simple'', value = ''mytag''\<rparr>])
       = Inl (NotFoundError ''No tag with type: [simple] and value [tag]'')"
  using getTag_raises_iff_absent
          [of "[\<lparr>type = ''simple'', value = ''mytag''\<rparr>, \<lparr>type = ''simple'', value = ''tag''\<rparr>]"
              "''simple''" "''tag''"]
        getTag_raises_iff_absent [of "[\<lparr>type = ''simple'', value = ''mytag''\<rparr>]" "''simple''" "''tag''"]
  by (simp add: getTag_def db_first_def where_type_value_def notfound_message_def)

theorem exists_agrees_with_getTag_witness:
  "fst (exists \<lparr>type = ''simple'', value = ''tag''\<rparr>
          [\<lparr>type = ''simple'', value = ''mytag''\<rparr>, \<lparr>type = ''simple'', value = ''tag''\<rparr>]) = Inr True
   \<and> (\<exists>found. fst (getTag ''simple'' ''tag''
          [\<lparr>type = ''simple'', value = ''mytag''\<rparr>, \<lparr>type = ''simple'', value = ''tag''\<rparr>]) = Inr found)
   \<and> fst (exists \<lparr>type = ''simple'', value = ''tag''\<rparr> [\<lparr>type = ''simple'', value = ''mytag''\<rparr>]) = Inr False
   \<and> (\<exists>msg. fst (getTag ''simple'' ''tag'' [\<lparr>type = ''simple'', value = ''mytag''\<rparr>])
          = Inl (NotFoundError msg))"
  using exists_agrees_with_getTag
          [of "\<lparr>type = ''simple'', value = ''tag''\<rparr>"
              "[\<lparr>type = ''simple'', value = ''mytag''\<rparr>, \<lparr>type = ''simple'', value = ''tag''\<rparr>]"]
        exists_agrees_with_getTag
          [of "\<lparr>type = ''simple'', value = ''tag''\<rparr>" "[\<lparr>type = ''simple'', value = ''mytag''\<rparr>]"]
  by (simp add: exists_def db_exists_def where_type_value_def)

theorem createTag_fails_on_duplicate_witness:
  "(\<exists>row \<in> set [\<lparr>type = ''simple'', value = ''tag''\<rparr>].
       type row = type \<lparr>type = ''simple'', value = ''tag''\<rparr>
       \<and> value row = value \<lparr>type = ''simple'', value = ''tag''\<rparr>)
   \<and> createTag \<lparr>type = ''simple'', value = ''tag''\<rparr> [\<lparr>type = ''simple'', value = ''tag''\<rparr>]
       = (Inl UniqueViolation, [\<lparr>type = ''simple'', value = ''tag''\<rparr>])
   \<and> \<not> (\<exists>row \<in> set [\<lparr>type = ''simple'', value = ''mytag''\<rparr>].
          type row = type \<lparr>type = ''simple'', value = ''tag''\<rparr>
          \<and> value row = value \<lparr>type = ''simple'', value = ''tag''\<rparr>)
   \<and> createTag \<lparr>type = ''simple'', value = ''tag''\<rparr> [\<lparr>type = ''simple'', value = ''mytag''\<rparr>]
       = (Inr (), [\<lparr>type = ''simple'', value = ''mytag''\<rparr>, \<lparr>type = ''simple'', value = ''tag''\<rparr>])"
  using createTag_fails_on_duplicate
          [of "[\<lparr>type = ''simple'', value = ''tag''\<rparr>]" "\<lparr>type = ''simple'', value = ''tag''\<rparr>"]
        createTag_fails_on_duplicate
          [of "[\<lparr>type = ''simple'', value = ''mytag''\<rparr>]" "\<lparr>type = ''simple'', value = ''tag''\<rparr>"]
  by (simp add: prod_eq_iff)

theorem deleteTag_removes_exactly_witness:
  "snd (deleteTag \<lparr>type = ''simple'', value = ''tag''\<rparr>
          [\<lparr>type = ''simple'', value = ''mytag''\<rparr>, \<lparr>type = ''simple'', value = ''tag''\<rparr>])
     = [\<lparr>type = ''simple'', value = ''mytag''\<rparr>]
   \<and> \<not> (\<exists>row \<in> set [\<lparr>type = ''simple'', value = ''mytag''\<rparr>].
          type row = type \<lparr>type = ''simple'', value = ''tag''\<rparr>
          \<and> value row = value \<lparr>type = ''simple'', value = ''tag''\<rparr>)
   \<and> deleteTag \<lparr>type = ''simple'', value = ''tag''\<rparr> [\<lparr>type = ''simple'', value = ''mytag''\<rparr>]
       = (Inr (), [\<lparr>type = ''simple'', value = ''mytag''\<rparr>])"
  using deleteTag_removes_exactly
          [of "\<lparr>type = ''simple'', value = ''tag''\<rparr>"
              "[\<lparr>type = ''simple'', value = ''mytag''\<rparr>, \<lparr>type = ''simple'', value = ''tag''\<rparr>]"]
        deleteTag_removes_exactly
          [of "\<lparr>type = ''simple'', value = ''tag''\<rparr>" "[\<lparr>type = ''simple'', value = ''mytag''\<rparr>]"]
  by (simp add: deleteTag_def db_del_def where_type_value_def)

section \<open>Properties of the feature toggles and the admin routes\<close>

lemma tagChange_events_prefix: "prefix (events s) (events (tagChange c s))"
  by (cases c) (simp_all add: tagFeature_def untagFeature_def append_event_def split: option.splits)

lemma tagChanges_events_prefix: "prefix (events s) (events (tagChanges cs s))"
proof (induction cs arbitrary: s)
  case Nil
  show ?case by simp
next
  case (Cons c cs)
  have "prefix (events s) (events (tagChange c s))"
    by (rule tagChange_events_prefix)
  also have "prefix (events (tagChange c s)) (events (tagChanges cs (tagChange c s)))"
    by (rule Cons.IH)
  finally show ?case by simp
qed

text \<open>
  Claim C1. Archiving an active toggle through \<^verbatim>\<open>DELETE /api/admin/features/:name\<close> answers 200
  and appends exactly one event to the log; the event is a feature-archived event, most recent
  on read, and its tags are the tags the toggle has at that moment. The event holds its own
  copy: whatever tags are attached or detached later, the log still starts with the old events
  followed by this event, unchanged. This holds for every active toggle, and so for every
  tagged one.
\<close>

theorem archive_event_carries_tags:
  assumes "getFeature n s = Some f"
  shows "\<exists>ev. deleteToggle n s =
               (Success 200,
                \<lparr>features = filter (\<lambda>g. name g \<noteq> n) (features s),
                 archived = archived s @ [f], events = events s @ [ev]\<rparr>)
           \<and> event_type ev = FeatureArchived
           \<and> event_tags ev = tags f
           \<and> event_tags ev = getTagsForFeature n s
           \<and> hd (getEvents (snd (deleteToggle n s))) = ev
           \<and> (\<forall>cs. prefix (events s @ [ev]) (events (tagChanges cs (snd (deleteToggle n s)))))"
proof -
  let ?ev = "\<lparr>event_type = FeatureArchived, event_data = f, event_tags = tags f,
              timestamp = length (events s)\<rparr>"
  let ?s' = "\<lparr>features = filter (\<lambda>g. name g \<noteq> n) (features s),
              archived = archived s @ [f], events = events s @ [?ev]\<rparr>"
  have del: "deleteToggle n s = (Success 200, ?s')"
    using assms by (simp add: deleteToggle_def archive_def append_event_def)
  have later: "prefix (events s @ [?ev]) (events (tagChanges cs (snd (deleteToggle n s))))" for cs
    using tagChanges_events_prefix [of ?s' cs] del by simp
  have "event_tags ?ev = getTagsForFeature n s"
    using assms by (simp add: getTagsForFeature_def)
  moreover have "hd (getEvents (snd (deleteToggle n s))) = ?ev"
    using del by (simp add: getEvents_def)
  ultimately show ?thesis
    using del later by (intro exI [of _ ?ev]) simp
qed

lemma validateName_active:
  "isUrlFriendly n \<Longrightarrow> n \<in> set (map name (features s)) \<Longrightarrow> validateName n s = Some NameExists"
  by (simp add: validateName_def)

lemma validateName_archived:
  "isUrlFriendly n \<Longrightarrow> n \<notin> set (map name (features s)) \<Longrightarrow> n \<in> set (map name (archived s)) \<Longrightarrow>
   validateName n s = Some ArchivedNameExists"
  by (simp add: validateName_def)

lemma wf_stores_names:
  assumes "wf_stores s" "n \<in> set (map name (features s @ archived s))"
  shows "isUrlFriendly n"
  using assms by (auto simp: wf_stores_def wf_toggle_def list_all_iff)

lemma wf_stores_disjoint:
  assumes "wf_stores s" "n \<in> set (map name (archived s))"
  shows "n \<notin> set (map name (features s))"
  using assms by (auto simp: wf_stores_def)

text \<open>The routes keep the invariants of the data model.\<close>

lemma createToggle_wf:
  assumes "wf_stores s"
  shows "wf_stores (snd (createToggle d s))"
proof (cases "fst (createToggle d s) = Success 201")
  case False
  then have "snd (createToggle d s) = s"
    by (auto simp: createToggle_def split: option.splits if_splits)
  with assms show ?thesis by simp
next
  case True
  then have v: "validateName (def_name d) s = None"
    and st: "def_strategies d \<noteq> None" "def_strategies d \<noteq> Some []"
    and vs: "distinct (map variant_name (variants (toggleOfDef d)))"
    by (auto simp: createToggle_def split: option.splits if_splits)
  from v have fresh: "isUrlFriendly (def_name d)" "def_name d \<notin> set (map name (features s))"
    "def_name d \<notin> set (map name (archived s))"
    by (auto simp: validateName_def split: if_splits)
  have run: "snd (createToggle d s) = createFeature (toggleOfDef d) s"
    using v st vs by (auto simp: createToggle_def)
  have "wf_toggle (toggleOfDef d)"
    using fresh(1) st vs by (auto simp: wf_toggle_def toggleOfDef_def split: option.splits)
  moreover have "name (toggleOfDef d) = def_name d"
    by (simp add: toggleOfDef_def)
  ultimately show ?thesis
    using assms fresh unfolding run
    by (auto simp: wf_stores_def createFeature_def append_event_def)
qed

lemma deleteToggle_wf:
  assumes "wf_stores s"
  shows "wf_stores (snd (deleteToggle n s))"
proof (cases "getFeature n s")
  case None
  with assms show ?thesis
    by (simp add: deleteToggle_def archive_def)
next
  case (Some f)
  then have f: "f \<in> set (features s)" "name f = n"
    by (auto simp: getFeature_def find_Some_iff)
  have run: "snd (deleteToggle n s) =
      append_event FeatureArchived f
        (s\<lparr>features := filter (\<lambda>g. name g \<noteq> n) (features s), archived := archived s @ [f]\<rparr>)"
    using Some by (simp add: deleteToggle_def archive_def)
  have "distinct (map name (filter (\<lambda>g. name g \<noteq> n) (features s) @ archived s @ [f]))"
    using assms f by (auto simp: wf_stores_def distinct_map_filter)
  moreover have "list_all wf_toggle (filter (\<lambda>g. name g \<noteq> n) (features s) @ archived s @ [f])"
    using assms f by (auto simp: wf_stores_def list_all_iff)
  ultimately show ?thesis
    unfolding run by (simp add: wf_stores_def append_event_def)
qed
text \<open>
  Claim C3. In a state that keeps the invariants of the data model, creating or validating a
  toggle under a name that an active toggle has fails with 409 and the message
  \<^verbatim>\<open>A toggle with that name already exists\<close>, and under a name that an archived toggle has it
  fails with 409 and the message \<^verbatim>\<open>An archived toggle with that name already exists\<close>; the
  state is left as it was.
\<close>

theorem taken_name_is_conflict:
  assumes "wf_stores s"
  shows "(n \<in> set (map name (features s)) \<longrightarrow>
            (\<forall>d. def_name d = n \<longrightarrow>
               status (fst (createToggle d s)) = 409
               \<and> message (fst (createToggle d s)) = Some ''A toggle with that name already exists''
               \<and> snd (createToggle d s) = s)
            \<and> status (fst (validateToggle n s)) = 409
            \<and> message (fst (validateToggle n s)) = Some ''A toggle with that name already exists'')
       \<and> (n \<in> set (map name (archived s)) \<longrightarrow>
            (\<forall>d. def_name d = n \<longrightarrow>
               status (fst (createToggle d s)) = 409
               \<and> message (fst (createToggle d s))
                   = Some ''An archived toggle with that name already exists''
               \<and> snd (createToggle d s) = s)
            \<and> status (fst (validateToggle n s)) = 409
            \<and> message (fst (validateToggle n s))
                = Some ''An archived toggle with that name already exists'')"
proof (intro conjI impI)
  assume act: "n \<in> set (map name (features s))"
  then have "isUrlFriendly n"
    using assms wf_stores_names [of s n] by simp
  then have v: "validateName n s = Some NameExists"
    using act by (rule validateName_active)
  show "\<forall>d. def_name d = n \<longrightarrow>
               status (fst (createToggle d s)) = 409
               \<and> message (fst (createToggle d s)) = Some ''A toggle with that name already exists''
               \<and> snd (createToggle d s) = s"
    using v by (simp add: createToggle_def)
  show "status (fst (validateToggle n s)) = 409"
    using v by (simp add: validateToggle_def)
  show "message (fst (validateToggle n s)) = Some ''A toggle with that name already exists''"
    using v by (simp add: validateToggle_def)
next
  assume arch: "n \<in> set (map name (archived s))"
  then have "isUrlFriendly n"
    using assms wf_stores_names [of s n] by simp
  moreover have "n \<notin> set (map name (features s))"
    using assms arch by (rule wf_stores_disjoint)
  ultimately have v: "validateName n s = Some ArchivedNameExists"
    using arch by (simp add: validateName_archived)
  show "\<forall>d. def_name d = n \<longrightarrow>
               status (fst (createToggle d s)) = 409
               \<and> message (fst (createToggle d s))
                   = Some ''An archived toggle with that name already exists''
               \<and> snd (createToggle d s) = s"
    using v by (simp add: createToggle_def)
  show "status (fst (validateToggle n s)) = 409"
    using v by (simp add: validateToggle_def)
  show "message (fst (validateToggle n s)) = Some ''An archived toggle with that name already exists''"
    using v by (simp add: validateToggle_def)
qed


text \<open>
  Claim C5 as stated fails: a create request with no strategies under the name of an active
  toggle is answered with 409, not 400, because the name is checked first.
\<close>

theorem zero_strategies_status_counterexample:
  "def_strategies (testDef ''ts'' None) = None
   \<and> status (fst (createToggle (testDef ''ts'' None) (createFeature (testToggle ''ts'') emptyStores)))
       = 409
   \<and> status (fst (createToggle (testDef ''ts'' None) (createFeature (testToggle ''ts'') emptyStores)))
       \<noteq> 400"
  by (simp add: testDef_def testToggle_def createToggle_def validateName_def createFeature_def
      append_event_def emptyStores_def isUrlFriendly_def isUrlFriendlyChar_def)

text \<open>
  Claim C5, amended. A create request with zero strategies (the field absent or empty) always
  fails and leaves the state as it was, so no toggle is created. The status is 400, except
  that it is 409 exactly when the name is URL-friendly and already taken by an active or an
  archived toggle.
\<close>

theorem zero_strategies_never_created:
  assumes "def_strategies d = None \<or> def_strategies d = Some []"
  shows "snd (createToggle d s) = s
       \<and> (\<exists>e. fst (createToggle d s) = Failed e)
       \<and> (status (fst (createToggle d s)) = 400 \<or> status (fst (createToggle d s)) = 409)
       \<and> (status (fst (createToggle d s)) = 409 \<longleftrightarrow>
            isUrlFriendly (def_name d) \<and> def_name d \<in> set (map name (features s @ archived s)))"
proof (cases "validateName (def_name d) s")
  case None
  then have "\<not> (isUrlFriendly (def_name d) \<and> def_name d \<in> set (map name (features s @ archived s)))"
    by (auto simp: validateName_def split: if_splits)
  moreover have "createToggle d s = (Failed StrategiesMissing, s)"
    using None assms by (auto simp: createToggle_def)
  ultimately show ?thesis
    by simp
next
  case (Some e)
  then have run: "createToggle d s = (Failed e, s)"
    by (simp add: createToggle_def)
  have "e = NameNotUrlFriendly \<and> \<not> isUrlFriendly (def_name d)
        \<or> (e = NameExists \<or> e = ArchivedNameExists) \<and> isUrlFriendly (def_name d)
            \<and> def_name d \<in> set (map name (features s @ archived s))"
    using Some by (auto simp: validateName_def split: if_splits)
  then show ?thesis
    using run by auto
qed

text \<open>
  Claim C4 as stated fails: the name \<^verbatim>\<open>ts\<close> matches the pattern and the request has a
  strategy, but the name is taken by an active toggle and the answer is 409, not 201.
\<close>

theorem url_friendly_name_counterexample:
  "isUrlFriendly ''ts''
   \<and> def_strategies (testDef ''ts'' (Some [Strategy ''default'' []])) = Some [Strategy ''default'' []]
   \<and> status (fst (createToggle (testDef ''ts'' (Some [Strategy ''default'' []]))
                    (createFeature (testToggle ''ts'') emptyStores))) = 409"
  by (simp add: testDef_def testToggle_def createToggle_def validateName_def createFeature_def
      append_event_def emptyStores_def isUrlFriendly_def isUrlFriendlyChar_def)

text \<open>
  Claim C4, amended. A create request whose name matches the URL-friendly pattern and is not
  taken by an active or archived toggle, with at least one strategy and no two variants of the
  same name, succeeds with 201 and the toggle becomes the last active one. A create request
  whose name does not match the pattern fails with 400, the message is exactly
  \<^verbatim>\<open>"name" must be URL friendly\<close>, and the state is left as it was.
\<close>

theorem url_friendly_name_decides_creation:
  "(isUrlFriendly (def_name d) \<and> def_name d \<notin> set (map name (features s @ archived s))
      \<and> def_strategies d = Some ss \<and> ss \<noteq> []
      \<and> distinct (map variant_name (variants (toggleOfDef d))) \<longrightarrow>
      createToggle d s = (Success 201, createFeature (toggleOfDef d) s)
      \<and> status (fst (createToggle d s)) = 201
      \<and> features (snd (createToggle d s)) = features s @ [toggleOfDef d]
      \<and> name (toggleOfDef d) = def_name d)
   \<and> (\<not> isUrlFriendly (def_name d) \<longrightarrow>
      status (fst (createToggle d s)) = 400
      \<and> message (fst (createToggle d s))
          = Some (CHR 0x22 # ''name'' @ CHR 0x22 # '' must be URL friendly'')
      \<and> snd (createToggle d s) = s)"
proof (intro conjI impI)
  assume ok: "isUrlFriendly (def_name d) \<and> def_name d \<notin> set (map name (features s @ archived s))
      \<and> def_strategies d = Some ss \<and> ss \<noteq> []
      \<and> distinct (map variant_name (variants (toggleOfDef d)))"
  then have "validateName (def_name d) s = None"
    by (simp add: validateName_def)
  with ok show run: "createToggle d s = (Success 201, createFeature (toggleOfDef d) s)"
    by (simp add: createToggle_def)
  then show "status (fst (createToggle d s)) = 201"
    by simp
  from run show "features (snd (createToggle d s)) = features s @ [toggleOfDef d]"
    by (simp add: createFeature_def append_event_def)
  show "name (toggleOfDef d) = def_name d"
    by (simp add: toggleOfDef_def)
next
  assume bad: "\<not> isUrlFriendly (def_name d)"
  then have run: "createToggle d s = (Failed NameNotUrlFriendly, s)"
    by (simp add: createToggle_def validateName_def)
  then show "status (fst (createToggle d s)) = 400"
    by simp
  from run show "message (fst (createToggle d s))
          = Some (CHR 0x22 # ''name'' @ CHR 0x22 # '' must be URL friendly'')"
    by simp
  from run show "snd (createToggle d s) = s"
    by simp
qed

lemma createFeature_features: "features (createFeature f s) = features s @ [f]"
  by (simp add: createFeature_def append_event_def)

text \<open>
  Claim C9. The list query with \<^verbatim>\<open>namePrefix=p\<close> returns exactly the active toggles whose name
  starts with \<open>p\<close>, as a subsequence of the active toggles, which are kept in creation order
  (a created toggle is put last). With \<^verbatim>\<open>a_team.toggle\<close>, \<^verbatim>\<open>a_tag.toggle\<close> and \<^verbatim>\<open>b_tag.toggle\<close>
  created in this order, \<^verbatim>\<open>namePrefix=a_\<close> returns the first two in this order.
\<close>

theorem namePrefix_filter_in_creation_order:
  "(\<forall>f. f \<in> set (getFeatures (Some p) None None s) \<longleftrightarrow> f \<in> set (features s) \<and> prefix p (name f))
   \<and> getFeatures (Some p) None None s = filter (\<lambda>f. prefix p (name f)) (features s)
   \<and> subseq (getFeatures (Some p) None None s) (features s)
   \<and> features (createFeature g s) = features s @ [g]
   \<and> map name (getFeatures (Some ''a_'') None None
        (createFeature (testToggle ''b_tag.toggle'')
          (createFeature (testToggle ''a_tag.toggle'')
            (createFeature (testToggle ''a_team.toggle'') emptyStores))))
       = [''a_team.toggle'', ''a_tag.toggle'']"
proof -
  have m: "matchesQuery (Some p) None None = (\<lambda>f. prefix p (name f))"
    by (simp add: matchesQuery_def fun_eq_iff)
  have general: "getFeatures (Some p) None None s = filter (\<lambda>f. prefix p (name f)) (features s)"
    by (simp add: getFeatures_def m)
  have "matchesQuery (Some ''a_'') None None = (\<lambda>f. prefix ''a_'' (name f))"
    by (simp add: matchesQuery_def fun_eq_iff)
  then have example: "map name (getFeatures (Some ''a_'') None None
        (createFeature (testToggle ''b_tag.toggle'')
          (createFeature (testToggle ''a_tag.toggle'')
            (createFeature (testToggle ''a_team.toggle'') emptyStores))))
       = [''a_team.toggle'', ''a_tag.toggle'']"
    by (simp add: getFeatures_def createFeature_features emptyStores_def testToggle_def)
  show ?thesis
    using general example by (simp add: createFeature_features)
qed


theorem archive_event_carries_tags_witness:
  "getFeature ''a_team.toggle''
     (tagFeature ''a_team.toggle'' \<lparr>type = ''simple'', value = ''tag''\<rparr>
        (createFeature (testToggle ''a_team.toggle'') emptyStores))
     = Some ((testToggle ''a_team.toggle'')\<lparr>tags := [\<lparr>type = ''simple'', value = ''tag''\<rparr>]\<rparr>)
   \<and> fst (deleteToggle ''a_team.toggle''
        (tagFeature ''a_team.toggle'' \<lparr>type = ''simple'', value = ''tag''\<rparr>
           (createFeature (testToggle ''a_team.toggle'') emptyStores))) = Success 200
   \<and> event_type (hd (getEvents (snd (deleteToggle ''a_team.toggle''
        (tagFeature ''a_team.toggle'' \<lparr>type = ''simple'', value = ''tag''\<rparr>
           (createFeature (testToggle ''a_team.toggle'') emptyStores)))))) = FeatureArchived
   \<and> event_tags (hd (getEvents (snd (deleteToggle ''a_team.toggle''
        (tagFeature ''a_team.toggle'' \<lparr>type = ''simple'', value = ''tag''\<rparr>
           (createFeature (testToggle ''a_team.toggle'') emptyStores))))))
       = [\<lparr>type = ''simple'', value = ''tag''\<rparr>]"
proof -
  let ?s = "tagFeature ''a_team.toggle'' \<lparr>type = ''simple'', value = ''tag''\<rparr>
              (createFeature (testToggle ''a_team.toggle'') emptyStores)"
  let ?f = "(testToggle ''a_team.toggle'')\<lparr>tags := [\<lparr>type = ''simple'', value = ''tag''\<rparr>]\<rparr>"
  have h: "getFeature ''a_team.toggle'' ?s = Some ?f"
    by (simp add: getFeature_def tagFeature_def createFeature_def append_event_def
        emptyStores_def testToggle_def attach_def)
  from archive_event_carries_tags [OF h] obtain ev where
    "deleteToggle ''a_team.toggle'' ?s =
       (Success 200,
        \<lparr>features = filter (\<lambda>g. name g \<noteq> ''a_team.toggle'') (features ?s),
         archived = archived ?s @ [?f], events = events ?s @ [ev]\<rparr>)"
    "event_type ev = FeatureArchived" "event_tags ev = tags ?f"
    "hd (getEvents (snd (deleteToggle ''a_team.toggle'' ?s))) = ev"
    by blast
  then show ?thesis
    using h by simp
qed

theorem taken_name_is_conflict_witness:
  "wf_stores (addArchivedFeature (testToggle ''ts.archived'')
                (createFeature (testToggle ''ts'') emptyStores))
   \<and> ''ts'' \<in> set (map name (features (addArchivedFeature (testToggle ''ts.archived'')
                (createFeature (testToggle ''ts'') emptyStores))))
   \<and> status (fst (validateToggle ''ts'' (addArchivedFeature (testToggle ''ts.archived'')
                (createFeature (testToggle ''ts'') emptyStores)))) = 409
   \<and> message (fst (validateToggle ''ts'' (addArchivedFeature (testToggle ''ts.archived'')
                (createFeature (testToggle ''ts'') emptyStores))))
       = Some ''A toggle with that name already exists''
   \<and> ''ts.archived'' \<in> set (map name (archived (addArchivedFeature (testToggle ''ts.archived'')
                (createFeature (testToggle ''ts'') emptyStores))))
   \<and> status (fst (validateToggle ''ts.archived'' (addArchivedFeature (testToggle ''ts.archived'')
                (createFeature (testToggle ''ts'') emptyStores)))) = 409
   \<and> message (fst (validateToggle ''ts.archived'' (addArchivedFeature (testToggle ''ts.archived'')
                (createFeature (testToggle ''ts'') emptyStores))))
       = Some ''An archived toggle with that name already exists''"
proof -
  let ?s = "addArchivedFeature (testToggle ''ts.archived'')
              (createFeature (testToggle ''ts'') emptyStores)"
  have fs: "features ?s = [testToggle ''ts'']" and ar: "archived ?s = [testToggle ''ts.archived'']"
    by (simp_all add: addArchivedFeature_def createFeature_def append_event_def emptyStores_def)
  have wf: "wf_stores ?s"
    unfolding wf_stores_def fs ar
    by (simp add: wf_toggle_def testToggle_def isUrlFriendly_def isUrlFriendlyChar_def)
  have a: "''ts'' \<in> set (map name (features ?s))"
    unfolding fs by (simp add: testToggle_def)
  have b: "''ts.archived'' \<in> set (map name (archived ?s))"
    unfolding ar by (simp add: testToggle_def)
  show ?thesis
    using wf a b taken_name_is_conflict [OF wf, of "''ts''"]
      taken_name_is_conflict [OF wf, of "''ts.archived''"]
    by simp
qed

theorem zero_strategies_never_created_witness:
  "(def_strategies (testDef ''sample.missing.strategy'' None) = None
      \<or> def_strategies (testDef ''sample.missing.strategy'' None) = Some [])
   \<and> snd (createToggle (testDef ''sample.missing.strategy'' None) emptyStores) = emptyStores
   \<and> status (fst (createToggle (testDef ''sample.missing.strategy'' None) emptyStores)) = 400"
proof -
  have h: "def_strategies (testDef ''sample.missing.strategy'' None) = None
           \<or> def_strategies (testDef ''sample.missing.strategy'' None) = Some []"
    by (simp add: testDef_def)
  show ?thesis
    using h zero_strategies_never_created [OF h, of emptyStores]
    by (simp add: createToggle_def validateName_def testDef_def emptyStores_def
        isUrlFriendly_def isUrlFriendlyChar_def)
qed

theorem url_friendly_name_decides_creation_witness:
  "isUrlFriendly (def_name (testDef ''com.example-company.someFeature.123''
                              (Some [Strategy ''default'' []])))
   \<and> status (fst (createToggle (testDef ''com.example-company.someFeature.123''
                                  (Some [Strategy ''default'' []])) emptyStores)) = 201
   \<and> map name (features (snd (createToggle (testDef ''com.example-company.someFeature.123''
                                  (Some [Strategy ''default'' []])) emptyStores)))
       = [''com.example-company.someFeature.123'']
   \<and> \<not> isUrlFriendly (def_name (testDef [CHR 0xD8, CHR 0xC6, CHR 0x60]
                                (Some [Strategy ''default'' []])))
   \<and> status (fst (createToggle (testDef [CHR 0xD8, CHR 0xC6, CHR 0x60]
                                  (Some [Strategy ''default'' []])) emptyStores)) = 400
   \<and> message (fst (createToggle (testDef [CHR 0xD8, CHR 0xC6, CHR 0x60]
                                   (Some [Strategy ''default'' []])) emptyStores))
       = Some (CHR 0x22 # ''name'' @ CHR 0x22 # '' must be URL friendly'')"
proof -
  let ?good = "testDef ''com.example-company.someFeature.123'' (Some [Strategy ''default'' []])"
  let ?bad = "testDef [CHR 0xD8, CHR 0xC6, CHR 0x60] (Some [Strategy ''default'' []])"
  have g: "isUrlFriendly (def_name ?good)"
    by (simp add: testDef_def isUrlFriendly_def isUrlFriendlyChar_def)
  have pre: "isUrlFriendly (def_name ?good)
      \<and> def_name ?good \<notin> set (map name (features emptyStores @ archived emptyStores))
      \<and> def_strategies ?good = Some [Strategy ''default'' []] \<and> [Strategy ''default'' []] \<noteq> []
      \<and> distinct (map variant_name (variants (toggleOfDef ?good)))"
    using g by (simp add: testDef_def emptyStores_def toggleOfDef_def)
  have b: "\<not> isUrlFriendly (def_name ?bad)"
    by (simp add: testDef_def isUrlFriendly_def isUrlFriendlyChar_def)
  from pre url_friendly_name_decides_creation [of ?good emptyStores "[Strategy ''default'' []]"]
  have run: "createToggle ?good emptyStores = (Success 201, createFeature (toggleOfDef ?good) emptyStores)"
    by blast
  have created: "map name (features (snd (createToggle ?good emptyStores)))
                  = [''com.example-company.someFeature.123'']"
    unfolding run
    by (simp add: createFeature_def append_event_def emptyStores_def toggleOfDef_def testDef_def)
  from b url_friendly_name_decides_creation [of ?bad emptyStores "[Strategy ''default'' []]"]
  have rejected: "status (fst (createToggle ?bad emptyStores)) = 400
      \<and> message (fst (createToggle ?bad emptyStores))
          = Some (CHR 0x22 # ''name'' @ CHR 0x22 # '' must be URL friendly'')"
    by blast
  show ?thesis
    using g b run created rejected by simp
qed

theorem namePrefix_filter_in_creation_order_witness:
  "map name (getFeatures (Some ''b_'') None None
        (createFeature (testToggle ''b_tag.toggle'')
          (createFeature (testToggle ''a_tag.toggle'')
            (createFeature (testToggle ''a_team.toggle'') emptyStores))))
     = [''b_tag.toggle'']"
  using namePrefix_filter_in_creation_order
          [of "''b_''"
              "createFeature (testToggle ''b_tag.toggle'')
                 (createFeature (testToggle ''a_tag.toggle'')
                   (createFeature (testToggle ''a_team.toggle'') emptyStores))"]
  by (simp add: createFeature_features emptyStores_def testToggle_def)

end
